theory Spec2Isabelle
  imports Main "HOL-Library.Sublist"
begin

section \<open>Text: characters, case folding and whitespace\<close>

text \<open>
  The textual parts of the container are Python \<^verbatim>\<open>str\<close> values. They are modelled as
  \<^typ>\<open>string\<close>; a \<^typ>\<open>char\<close> stands for the code point of the same number, so the model
  covers text over U+0000 .. U+00FF. On that range the functions below are the ones the
  \<^verbatim>\<open>re\<close> module uses for a \<^verbatim>\<open>str\<close> pattern compiled with \<^verbatim>\<open>re.IGNORECASE\<close>.
\<close>

definition bslash :: char where
  "bslash = CHR 0x5C"

text \<open>Lower-casing of a code point: A-Z and the upper-case letters of Latin-1 move by 32.\<close>

definition lower_char :: "char \<Rightarrow> char" where
  "lower_char c =
     (let n = (of_char c :: nat)
      in if (65 \<le> n \<and> n \<le> 90) \<or> (192 \<le> n \<and> n \<le> 222 \<and> n \<noteq> 215)
         then char_of (n + 32) else c)"

text \<open>The characters \<^verbatim>\<open>\s\<close> matches: those for which \<^verbatim>\<open>str.isspace\<close> holds.\<close>

definition is_space :: "char \<Rightarrow> bool" where
  "is_space c = (c \<in> set [CHR 0x09, CHR 0x0A, CHR 0x0B, CHR 0x0C, CHR 0x0D,
                           CHR 0x1C, CHR 0x1D, CHR 0x1E, CHR 0x1F, CHR 0x20,
                           CHR 0x85, CHR 0xA0])"

definition is_alnum :: "char \<Rightarrow> bool" where
  "is_alnum c =
     (let n = (of_char c :: nat)
      in (48 \<le> n \<and> n \<le> 57) \<or> (65 \<le> n \<and> n \<le> 90) \<or> (97 \<le> n \<and> n \<le> 122))"

section \<open>Regular expressions: the fragment the patterns of \<^verbatim>\<open>fill_docx_and_convert\<close> use\<close>

datatype regex =
    Lit char
  | Space
  | CSet bool "char list"
  | Group "regex list"
  | Star regex
  | Plus regex
  | Opt regex

fun is_repeat :: "regex \<Rightarrow> bool" where
  "is_repeat (Star r) = True"
| "is_repeat (Plus r) = True"
| "is_repeat (Opt r) = True"
| "is_repeat r = False"

subsection \<open>\<^verbatim>\<open>re.escape\<close>\<close>

text \<open>
  \<^verbatim>\<open>re.escape\<close> puts a backslash before each of
  \<^verbatim>\<open>( ) [ ] { } ? * + - | ^ $ \ . & ~ #\<close>, space, tab, newline, carriage return,
  vertical tab and form feed, and copies every other character.
\<close>

definition special_chars :: "char list" where
  "special_chars = ''()[]{}?*+-|^$'' @ [bslash] @ ''.&~# '' @
                   [CHR 0x09, CHR 0x0A, CHR 0x0D, CHR 0x0B, CHR 0x0C]"

fun re_escape :: "string \<Rightarrow> string" where
  "re_escape [] = []"
| "re_escape (c # cs) =
     (if c \<in> set special_chars then bslash # c # re_escape cs else c # re_escape cs)"

subsection \<open>Parsing a pattern\<close>

text \<open>
  The parser reads the pattern from left to right as \<^verbatim>\<open>sre_parse\<close> does: an item is appended to
  the current sequence, a repeat operator replaces the last item of the current sequence, an
  opening \<^verbatim>\<open>(?:\<close> starts a new sequence and the closing parenthesis appends it as one item
  to the enclosing one. \<^term>\<open>None\<close> stands for \<^verbatim>\<open>re.error\<close> and for every construct outside
  this fragment.
\<close>

fun parse_set_items :: "string \<Rightarrow> (char list \<times> string) option" where
  "parse_set_items [] = None"
| "parse_set_items (c # cs) =
     (if c = CHR '']'' then Some ([], cs)
      else if c = bslash \<or> c = CHR ''-'' \<or> c = CHR ''['' then None
      else (case parse_set_items cs of
              None \<Rightarrow> None
            | Some (items, rest) \<Rightarrow> Some (c # items, rest)))"

lemma parse_set_items_length:
  "parse_set_items s = Some (items, rest) \<Longrightarrow> length rest < length s"
  by (induction s arbitrary: items rest) (auto split: if_splits option.splits)

function parse_re :: "string \<Rightarrow> regex list \<Rightarrow> regex list list \<Rightarrow> regex list option" where
  "parse_re [] acc stk = (if stk = [] then Some (rev acc) else None)"
| "parse_re (c # cs) acc stk =
     (if c = bslash then
        (case cs of
           [] \<Rightarrow> None
         | d # ds \<Rightarrow>
             if d = CHR ''s'' then parse_re ds (Space # acc) stk
             else if is_alnum d then None
             else parse_re ds (Lit d # acc) stk)
      else if c = CHR ''['' then
        (case cs of
           [] \<Rightarrow> None
         | d # ds \<Rightarrow>
             (case parse_set_items (if d = CHR ''^'' then ds else cs) of
                None \<Rightarrow> None
              | Some (items, rest) \<Rightarrow>
                  if items = [] then None
                  else parse_re rest (CSet (d = CHR ''^'') items # acc) stk))
      else if c = CHR ''('' then
        (case cs of
           d # e # es \<Rightarrow>
             if d = CHR ''?'' \<and> e = CHR '':'' then parse_re es [] (acc # stk) else None
         | _ \<Rightarrow> None)
      else if c = CHR '')'' then
        (case stk of
           [] \<Rightarrow> None
         | outer # stk' \<Rightarrow> parse_re cs (Group (rev acc) # outer) stk')
      else if c = CHR ''*'' \<or> c = CHR ''+'' \<or> c = CHR ''?'' then
        (case acc of
           [] \<Rightarrow> None
         | r # acc' \<Rightarrow>
             if is_repeat r then None
             else parse_re cs
                    ((if c = CHR ''*'' then Star r else if c = CHR ''+'' then Plus r else Opt r)
                     # acc') stk)
      else if c = CHR ''.'' \<or> c = CHR ''^'' \<or> c = CHR ''$'' \<or> c = CHR ''|'' \<or> c = CHR ''{''
        then None
      else parse_re cs (Lit c # acc) stk)"
  by pat_completeness auto
termination
  by (relation "measure (\<lambda>(s, acc, stk). length s)")
     (auto simp del: parse_set_items.simps dest!: parse_set_items_length split: if_splits)

definition re_compile :: "string \<Rightarrow> regex list option" where
  "re_compile pat = parse_re pat [] []"

subsection \<open>Matching\<close>

text \<open>
  \<^verbatim>\<open>re\<close> matches by backtracking. \<open>ends r s\<close> lists, in the order in which the
  backtracking matcher tries them, the remainders of \<open>s\<close> after each way of matching \<open>r\<close> at
  the start of \<open>s\<close>; the match the matcher reports is the head of the list. Repeats are greedy:
  one more iteration is tried before the rest of the pattern. An iteration of a repeat that
  consumes nothing ends the repetition. Under \<^verbatim>\<open>re.IGNORECASE\<close> a literal matches a character
  with the same lower-case form, and a set is tested on lower-case forms.
\<close>

fun rsize :: "regex \<Rightarrow> nat" where
  "rsize (Lit c) = 1"
| "rsize Space = 1"
| "rsize (CSet neg cs) = 1"
| "rsize (Group rs) = Suc (sum_list (map (\<lambda>r. Suc (rsize r)) rs))"
| "rsize (Star r) = Suc (rsize r)"
| "rsize (Plus r) = Suc (Suc (rsize r))"
| "rsize (Opt r) = Suc (rsize r)"

definition match_char :: "regex \<Rightarrow> char \<Rightarrow> bool" where
  "match_char r x =
     (case r of
        Lit c \<Rightarrow> lower_char x = lower_char c
      | Space \<Rightarrow> is_space x
      | CSet neg cs \<Rightarrow> (lower_char x \<in> set (map lower_char cs)) \<noteq> neg
      | _ \<Rightarrow> False)"

function ends :: "regex \<Rightarrow> string \<Rightarrow> string list"
  and ends_seq :: "regex list \<Rightarrow> string \<Rightarrow> string list" where
  "ends (Lit c) s = (case s of [] \<Rightarrow> [] | x # xs \<Rightarrow> if match_char (Lit c) x then [xs] else [])"
| "ends Space s = (case s of [] \<Rightarrow> [] | x # xs \<Rightarrow> if match_char Space x then [xs] else [])"
| "ends (CSet neg cs) s =
     (case s of [] \<Rightarrow> [] | x # xs \<Rightarrow> if match_char (CSet neg cs) x then [xs] else [])"
| "ends (Group rs) s = ends_seq rs s"
| "ends (Star r) s =
     concat (map (ends (Star r)) (filter (\<lambda>t. length t < length s) (ends r s))) @ [s]"
| "ends (Plus r) s = concat (map (ends (Star r)) (ends r s))"
| "ends (Opt r) s = ends r s @ [s]"
| "ends_seq [] s = [s]"
| "ends_seq (r # rs) s = concat (map (ends_seq rs) (ends r s))"
  by pat_completeness auto
termination
  by (relation "inv_image (less_than <*lex*> less_than)
        (\<lambda>x. case x of
               Inl (r, s) \<Rightarrow> (rsize r, length s)
             | Inr (rs, s) \<Rightarrow> (sum_list (map (\<lambda>r. Suc (rsize r)) rs), length s))")
     auto

subsection \<open>Searching and replacing: \<^verbatim>\<open>re.sub\<close>\<close>

text \<open>
  \<open>first_end p adv s\<close> is the match of the whole pattern at the start of \<open>s\<close>, given by the
  remainder after it. With \<open>adv\<close> set (the matcher's \<^verbatim>\<open>must_advance\<close>, set after an empty
  match) an empty match at this position is skipped. \<open>re_search\<close> tries the start positions
  from left to right and returns the text skipped and the remainder after the match.
\<close>

definition first_end :: "regex list \<Rightarrow> bool \<Rightarrow> string \<Rightarrow> string option" where
  "first_end p adv s =
     (case filter (\<lambda>t. \<not> adv \<or> length t < length s) (ends_seq p s) of
        [] \<Rightarrow> None
      | t # ts \<Rightarrow> Some t)"

fun re_search :: "regex list \<Rightarrow> bool \<Rightarrow> string \<Rightarrow> (string \<times> string) option" where
  "re_search p adv [] =
     (case first_end p adv [] of None \<Rightarrow> None | Some t \<Rightarrow> Some ([], t))"
| "re_search p adv (c # cs) =
     (case first_end p adv (c # cs) of
        Some t \<Rightarrow> Some ([], t)
      | None \<Rightarrow>
          (case re_search p False cs of
             None \<Rightarrow> None
           | Some (pre, t) \<Rightarrow> Some (c # pre, t)))"

declare ends.simps(5) [simp del]

lemma ends_suffix:
  "t \<in> set (ends r s) \<Longrightarrow> suffix t s"
  "t \<in> set (ends_seq rs s) \<Longrightarrow> suffix t s"
proof (induction r s and rs s arbitrary: t and t rule: ends_ends_seq.induct)
  case (1 c s)
  then show ?case by (cases s) (auto simp: suffix_Cons split: if_splits)
next
  case (2 s)
  then show ?case by (cases s) (auto simp: suffix_Cons split: if_splits)
next
  case (3 neg cs s)
  then show ?case by (cases s) (auto simp: suffix_Cons split: if_splits)
next
  case (4 rs s)
  then show ?case by simp
next
  case (5 r s)
  from "5.prems" have "t = s \<or> (\<exists>u. u \<in> set (ends r s) \<and> length u < length s \<and> t \<in> set (ends (Star r) u))"
    by (subst (asm) ends.simps(5)) auto
  then show ?case
  proof
    assume "t = s" then show ?thesis by simp
  next
    assume "\<exists>u. u \<in> set (ends r s) \<and> length u < length s \<and> t \<in> set (ends (Star r) u)"
    then obtain u where u: "u \<in> set (ends r s)" "length u < length s" "t \<in> set (ends (Star r) u)"
      by blast
    from "5.IH"(1)[OF u(1)] have "suffix u s" .
    moreover have "suffix t u" using "5.IH"(2)[of u t] u by simp
    ultimately show ?thesis by (rule suffix_order.trans[rotated])
  qed
next
  case (6 r s)
  from "6.prems" obtain u where u: "u \<in> set (ends r s)" "t \<in> set (ends (Star r) u)"
    by auto
  from "6.IH"(1)[OF u(1)] have "suffix u s" .
  moreover have "suffix t u" using "6.IH"(2)[OF u(1) u(2)] .
  ultimately show ?case by (rule suffix_order.trans[rotated])
next
  case (7 r s)
  then show ?case by auto
next
  case (8 s)
  then show ?case by simp
next
  case (9 r rs s)
  from "9.prems" obtain u where u: "u \<in> set (ends r s)" "t \<in> set (ends_seq rs u)"
    by auto
  from "9.IH"(1)[OF u(1)] have "suffix u s" .
  moreover have "suffix t u" using "9.IH"(2)[OF u(1) u(2)] .
  ultimately show ?case by (rule suffix_order.trans[rotated])
qed

lemma first_end_suffix: "first_end p adv s = Some t \<Longrightarrow> suffix t s"
proof -
  assume a: "first_end p adv s = Some t"
  then obtain ts where "filter (\<lambda>t. \<not> adv \<or> length t < length s) (ends_seq p s) = t # ts"
    by (auto simp: first_end_def split: list.splits)
  then have "t \<in> set (filter (\<lambda>t. \<not> adv \<or> length t < length s) (ends_seq p s))"
    by (metis list.set_intros(1))
  then have "t \<in> set (ends_seq p s)" by simp
  then show ?thesis by (rule ends_suffix(2))
qed

lemma re_search_split:
  "re_search p adv s = Some (pre, t) \<Longrightarrow> \<exists>m. s = pre @ m @ t"
proof (induction s arbitrary: adv pre t)
  case Nil
  then show ?case by (auto split: option.splits dest!: first_end_suffix)
next
  case (Cons c cs)
  show ?case
  proof (cases "first_end p adv (c # cs)")
    case (Some u)
    with Cons.prems have "pre = []" "t = u" by auto
    with Some show ?thesis using first_end_suffix[of p adv "c # cs" u] by (auto simp: suffix_def)
  next
    case None
    with Cons.prems obtain pre' where r: "re_search p False cs = Some (pre', t)" "pre = c # pre'"
      by (auto split: option.splits)
    from Cons.IH[OF r(1)] r(2) show ?thesis by auto
  qed
qed

lemma re_search_length: "re_search p adv s = Some (pre, t) \<Longrightarrow> length pre + length t \<le> length s"
proof -
  assume "re_search p adv s = Some (pre, t)"
  then obtain m where "s = pre @ m @ t" using re_search_split by blast
  then show ?thesis by simp
qed

text \<open>
  The replacement of \<^verbatim>\<open>re.sub\<close> is a template: \<^verbatim>\<open>parse_template\<close> of \<^verbatim>\<open>sre_parse\<close> reads
  its backslash escapes before any matching is done. \<^verbatim>\<open>\g<0>\<close> stands for the matched text;
  the patterns here have no group, so every other group reference is rejected. \<^term>\<open>None\<close>
  stands for the exception raised (\<^verbatim>\<open>re.error\<close>, or \<^verbatim>\<open>IndexError\<close> for an unknown group name).
  A group name made of decimal digits is read as in Python 3.12.
\<close>

datatype titem = TChar char | TGroup0

definition is_digit :: "char \<Rightarrow> bool" where
  "is_digit c = (let n = (of_char c :: nat) in 48 \<le> n \<and> n \<le> 57)"

definition is_octdigit :: "char \<Rightarrow> bool" where
  "is_octdigit c = (let n = (of_char c :: nat) in 48 \<le> n \<and> n \<le> 55)"

definition is_ascii_letter :: "char \<Rightarrow> bool" where
  "is_ascii_letter c =
     (let n = (of_char c :: nat) in (65 \<le> n \<and> n \<le> 90) \<or> (97 \<le> n \<and> n \<le> 122))"

fun octal_value :: "nat \<Rightarrow> string \<Rightarrow> nat" where
  "octal_value acc [] = acc"
| "octal_value acc (c # cs) = octal_value (8 * acc + (of_char c - 48)) cs"

fun get_until :: "char \<Rightarrow> string \<Rightarrow> (string \<times> string) option" where
  "get_until term [] = None"
| "get_until term (c # cs) =
     (if c = term then Some ([], cs)
      else (case get_until term cs of
              None \<Rightarrow> None
            | Some (name, rest) \<Rightarrow> Some (c # name, rest)))"

lemma get_until_length:
  "get_until term s = Some (name, rest) \<Longrightarrow> length rest < length s"
  by (induction s arbitrary: name rest) (auto split: if_splits option.splits)

definition escape_char :: "char \<Rightarrow> char option" where
  "escape_char d =
     (if d = CHR ''a'' then Some (CHR 0x07)
      else if d = CHR ''b'' then Some (CHR 0x08)
      else if d = CHR ''f'' then Some (CHR 0x0C)
      else if d = CHR ''n'' then Some (CHR 0x0A)
      else if d = CHR ''r'' then Some (CHR 0x0D)
      else if d = CHR ''t'' then Some (CHR 0x09)
      else if d = CHR ''v'' then Some (CHR 0x0B)
      else if d = bslash then Some bslash
      else None)"

definition titems :: "titem list \<Rightarrow> titem list option \<Rightarrow> titem list option" where
  "titems front rest = (case rest of None \<Rightarrow> None | Some items \<Rightarrow> Some (front @ items))"

function parse_template :: "string \<Rightarrow> titem list option" where
  "parse_template [] = Some []"
| "parse_template (c # cs) =
     (if c \<noteq> bslash then titems [TChar c] (parse_template cs)
      else
        (case cs of
           [] \<Rightarrow> None
         | d # ds \<Rightarrow>
             if d = CHR ''g'' then
               (case ds of
                  [] \<Rightarrow> None
                | e # es \<Rightarrow>
                    if e \<noteq> CHR ''<'' then None
                    else
                      (case get_until (CHR ''>'') es of
                         None \<Rightarrow> None
                       | Some (name, rest) \<Rightarrow>
                           if name \<noteq> [] \<and> list_all is_digit name \<and> octal_value 0 name = 0
                           then titems [TGroup0] (parse_template rest)
                           else None))
             else if d = CHR ''0'' then
               (let digs = takeWhile is_octdigit (take 2 ds)
                in titems [TChar (char_of (octal_value 0 digs))]
                     (parse_template (drop (length digs) ds)))
             else if is_digit d then
               (case ds of
                  e # f # fs \<Rightarrow>
                    if is_octdigit d \<and> is_octdigit e \<and> is_octdigit f
                    then (if octal_value 0 [d, e, f] > 255 then None
                          else titems [TChar (char_of (octal_value 0 [d, e, f]))]
                                 (parse_template fs))
                    else None
                | _ \<Rightarrow> None)
             else
               (case escape_char d of
                  Some x \<Rightarrow> titems [TChar x] (parse_template ds)
                | None \<Rightarrow>
                    if is_ascii_letter d then None
                    else titems [TChar bslash, TChar d] (parse_template ds))))"
  by pat_completeness auto
termination
  by (relation "measure length")
     (auto simp del: get_until.simps dest!: get_until_length split: if_splits)

fun expand :: "titem list \<Rightarrow> string \<Rightarrow> string" where
  "expand [] m = []"
| "expand (TChar c # items) m = c # expand items m"
| "expand (TGroup0 # items) m = m @ expand items m"

text \<open>
  \<open>re_sub_from\<close> is the loop of \<^verbatim>\<open>re.sub\<close> with count 0: search from the current position,
  copy the text skipped, append the expanded template, continue after the match. After an
  empty match the next search must advance. The last branch is never reached, as a match
  that must advance is not empty.
\<close>

function re_sub_from :: "regex list \<Rightarrow> titem list \<Rightarrow> bool \<Rightarrow> string \<Rightarrow> string" where
  "re_sub_from p tmpl adv s =
     (case re_search p adv s of
        None \<Rightarrow> s
      | Some (pre, t) \<Rightarrow>
          (let from = drop (length pre) s;
               m = take (length from - length t) from
           in pre @ expand tmpl m @
              (if length t < length s then re_sub_from p tmpl (m = []) t
               else if \<not> adv then re_sub_from p tmpl True t
               else t)))"
  by pat_completeness auto
termination
  by (relation "measure (\<lambda>(p, tmpl, adv, s). 2 * length s + (if adv then 0 else 1))")
     (auto dest: re_search_length)

datatype message =
    StdoutMsg string
  | StderrMsg string
  | ConversionMsg int
  | ToolMissingMsg

datatype error =
    PatternError
  | TemplateError
  | ExtractError
  | MkdtempError
  | ZipWriteError
  | RmtreeError
  | FileNotFoundError
  | RuntimeError message

definition re_sub :: "string \<Rightarrow> string \<Rightarrow> string \<Rightarrow> error + string" where
  "re_sub pattern repl s =
     (case re_compile pattern of
        None \<Rightarrow> Inl PatternError
      | Some p \<Rightarrow>
          (case parse_template repl of
             None \<Rightarrow> Inl TemplateError
           | Some tmpl \<Rightarrow> Inr (re_sub_from p tmpl False s)))"

section \<open>The substitution loop of \<^verbatim>\<open>fill_docx_and_convert\<close>\<close>

text \<open>
  The two patterns are the concatenations of raw strings of the source, with \<^verbatim>\<open>re.escape(key)\<close>
  in the middle. The substitution map is a \<^verbatim>\<open>dict\<close>, iterated in insertion order: an association
  list.
\<close>

definition tags_ws :: string where
  "tags_ws = ''(?:<'' @ [bslash] @ ''/?[^>]+>)*'' @ [bslash] @ ''s*''"

definition pattern_double :: "string \<Rightarrow> string" where
  "pattern_double key =
     ([bslash] @ ''{'' @ [bslash] @ ''{'' @ [bslash] @ ''s*'') @
     tags_ws @
     re_escape key @
     ([bslash] @ ''s*'') @ tags_ws @
     ([bslash] @ ''}'' @ [bslash] @ ''}'')"

definition pattern_single :: "string \<Rightarrow> string" where
  "pattern_single key =
     ([bslash] @ ''{'' @ [bslash] @ ''s*'') @
     tags_ws @
     re_escape key @
     ([bslash] @ ''s*'') @ tags_ws @
     ([bslash] @ ''}'' @ [bslash] @ ''}'')"

fun substitute :: "(string \<times> string) list \<Rightarrow> string \<Rightarrow> error + string" where
  "substitute [] new_xml = Inr new_xml"
| "substitute ((key, val) # items) new_xml =
     (case re_sub (pattern_double key) val new_xml of
        Inl e \<Rightarrow> Inl e
      | Inr xml1 \<Rightarrow>
          (case re_sub (pattern_single key) val xml1 of
             Inl e \<Rightarrow> Inl e
           | Inr xml2 \<Rightarrow> substitute items xml2))"

section \<open>Paths: \<^verbatim>\<open>os.path.splitext\<close>\<close>

text \<open>
  \<^verbatim>\<open>posixpath.splitext\<close>: the extension starts at the last dot of the path, if that dot comes
  after the last slash and some character between the slash and the dot is not a dot.
  \<open>rfind\<close> is \<^verbatim>\<open>str.rfind\<close> for one character, \<open>-1\<close> when it does not occur.
\<close>

fun rfind_from :: "char \<Rightarrow> string \<Rightarrow> int \<Rightarrow> int \<Rightarrow> int" where
  "rfind_from x [] i found = found"
| "rfind_from x (c # cs) i found = rfind_from x cs (i + 1) (if c = x then i else found)"

definition rfind :: "char \<Rightarrow> string \<Rightarrow> int" where
  "rfind x p = rfind_from x p 0 (- 1)"

definition splitext :: "string \<Rightarrow> string \<times> string" where
  "splitext p =
     (let sepIndex = rfind (CHR ''/'') p;
          dotIndex = rfind (CHR ''.'') p
      in if dotIndex > sepIndex \<and>
            list_ex (\<lambda>c. c \<noteq> CHR ''.'')
              (take (nat (dotIndex - (sepIndex + 1))) (drop (nat (sepIndex + 1)) p))
         then (take (nat dotIndex) p, drop (nat dotIndex) p)
         else (p, []))"

section \<open>The pipeline \<^verbatim>\<open>fill_docx_and_convert\<close>\<close>

text \<open>
  The function works on the file system and runs an external program. What the surroundings
  answer is collected in a record: whether the two output files exist on entry and whether
  removing them succeeds, whether the scratch directory can be made, the files that unpacking
  the template puts there (\<^term>\<open>None\<close> when \<^verbatim>\<open>zipfile\<close> raises), how a file is read and written
  as text (reading gives \<^term>\<open>None\<close> when it raises, as for bytes that are not UTF-8), whether
  the new archive can be written, whether \<^verbatim>\<open>shutil.rmtree\<close> succeeds, whether the
  \<^verbatim>\<open>libreoffice\<close> executable is found, what the process returns and whether it writes the
  PDF. A file of the working tree is a relative path, given by its components, and a content
  of an arbitrary type \<open>'b\<close>. What the function does is recorded as a list of events.
\<close>

record proc_result =
  returncode :: int
  stdout :: string
  stderr :: string

record 'b env =
  docx_exists :: bool
  remove_docx_ok :: bool
  pdf_exists :: bool
  remove_pdf_ok :: bool
  mkdtemp_ok :: bool
  extracted :: "(string list \<times> 'b) list option"
  read_text :: "'b \<Rightarrow> string option"
  write_text :: "string \<Rightarrow> 'b"
  zip_ok :: bool
  rmtree_ok :: bool
  tool_found :: bool
  proc :: proc_result
  renderer_writes_pdf :: bool

datatype event =
    Remove string
  | RemoveFailed string
  | Mkdtemp
  | Extract string
  | WritePart "string list"
  | ZipWrite string
  | Rmtree
  | RunRenderer string
  | LogInfo message
  | LogError message

record 'b outcome =
  result :: "error + (string \<times> string)"
  events :: "event list"
  rendered :: "(string list \<times> 'b) list option"

text \<open>
  Step 2 visits the files below \<^verbatim>\<open>word/\<close> whose name ends in \<^verbatim>\<open>.xml\<close> in any letter case.
  A file that cannot be read as text is skipped. A file is written back when the text after
  all substitutions differs from the text read.
\<close>

definition is_xml_name :: "string \<Rightarrow> bool" where
  "is_xml_name fname = suffix ''.xml'' (map lower_char fname)"

definition in_word_dir :: "string list \<Rightarrow> bool" where
  "in_word_dir relpath = (2 \<le> length relpath \<and> hd relpath = ''word'')"

definition process_part ::
  "'b env \<Rightarrow> (string \<times> string) list \<Rightarrow> string list \<times> 'b
     \<Rightarrow> event list \<times> (error + string list \<times> 'b)" where
  "process_part env data part =
     (if \<not> in_word_dir (fst part) \<or> \<not> is_xml_name (last (fst part)) then ([], Inr part)
      else
        (case read_text env (snd part) of
           None \<Rightarrow> ([], Inr part)
         | Some xml \<Rightarrow>
             (case substitute data xml of
                Inl e \<Rightarrow> ([], Inl e)
              | Inr new_xml \<Rightarrow>
                  if new_xml \<noteq> xml
                  then ([WritePart (fst part)], Inr (fst part, write_text env new_xml))
                  else ([], Inr part))))"

fun process_tree ::
  "'b env \<Rightarrow> (string \<times> string) list \<Rightarrow> (string list \<times> 'b) list
     \<Rightarrow> event list \<times> (error + (string list \<times> 'b) list)" where
  "process_tree env data [] = ([], Inr [])"
| "process_tree env data (part # parts) =
     (case process_part env data part of
        (ev, Inl e) \<Rightarrow> (ev, Inl e)
      | (ev, Inr part') \<Rightarrow>
          (case process_tree env data parts of
             (evs, Inl e) \<Rightarrow> (ev @ evs, Inl e)
           | (evs, Inr parts') \<Rightarrow> (ev @ evs, Inr (part' # parts'))))"

text \<open>Steps 1 to 3, the body of the \<^verbatim>\<open>try\<close> block: unpack, substitute, repack.\<close>

definition fill_body ::
  "'b env \<Rightarrow> string \<Rightarrow> string \<Rightarrow> (string \<times> string) list
     \<Rightarrow> event list \<times> (error + (string list \<times> 'b) list)" where
  "fill_body env input_docx output_docx data =
     (case extracted env of
        None \<Rightarrow> ([Extract input_docx], Inl ExtractError)
      | Some tree \<Rightarrow>
          (case process_tree env data tree of
             (evs, Inl e) \<Rightarrow> (Extract input_docx # evs, Inl e)
           | (evs, Inr tree') \<Rightarrow>
               (Extract input_docx # evs @ [ZipWrite output_docx],
                if zip_ok env then Inr tree' else Inl ZipWriteError)))"

text \<open>
  Step 4: run the renderer. The two streams of the process are logged. The exception raised
  when the process fails or the PDF is missing is a \<^verbatim>\<open>RuntimeError\<close> whose message is
  built from the return code. The PDF is there after the run when the renderer wrote it, or
  when an old one was there on entry and could not be removed.
\<close>

definition pdf_after :: "'b env \<Rightarrow> bool" where
  "pdf_after env = (renderer_writes_pdf env \<or> (pdf_exists env \<and> \<not> remove_pdf_ok env))"

definition convert :: "'b env \<Rightarrow> string \<Rightarrow> event list \<times> (error + unit)" where
  "convert env output_docx =
     (if \<not> tool_found env
      then ([RunRenderer output_docx, LogError ToolMissingMsg], Inl FileNotFoundError)
      else
        (let p = proc env;
             logs = [RunRenderer output_docx, LogInfo (StdoutMsg (stdout p)),
                     LogInfo (StderrMsg (stderr p))]
         in if returncode p \<noteq> 0 \<or> \<not> pdf_after env
            then (logs @ [LogError (ConversionMsg (returncode p))],
                  Inl (RuntimeError (ConversionMsg (returncode p))))
            else (logs, Inr ())))"

definition remove_if_exists :: "bool \<Rightarrow> bool \<Rightarrow> string \<Rightarrow> event list" where
  "remove_if_exists exists ok path =
     (if exists then (if ok then [Remove path] else [RemoveFailed path]) else [])"

definition fill_docx_and_convert ::
  "'b env \<Rightarrow> string \<Rightarrow> string \<Rightarrow> (string \<times> string) list \<Rightarrow> 'b outcome" where
  "fill_docx_and_convert env input_docx output_docx data =
     (let ev1 = remove_if_exists (docx_exists env) (remove_docx_ok env) output_docx;
          output_pdf = fst (splitext output_docx) @ ''.pdf'';
          ev2 = remove_if_exists (pdf_exists env) (remove_pdf_ok env) output_pdf
      in if \<not> mkdtemp_ok env
         then \<lparr>result = Inl MkdtempError, events = ev1 @ ev2, rendered = None\<rparr>
         else
           (let (evb, rb) = fill_body env input_docx output_docx data;
                ev3 = ev1 @ ev2 @ [Mkdtemp] @ evb @ [Rmtree];
                written = (case rb of Inl e \<Rightarrow> None | Inr tree \<Rightarrow> Some tree)
            in if \<not> rmtree_ok env
               then \<lparr>result = Inl RmtreeError, events = ev3, rendered = written\<rparr>
               else
                 (case rb of
                    Inl e \<Rightarrow> \<lparr>result = Inl e, events = ev3, rendered = written\<rparr>
                  | Inr tree \<Rightarrow>
                      (let (evc, rc) = convert env output_docx
                       in \<lparr>result = (case rc of
                                        Inl e \<Rightarrow> Inl e
                                      | Inr u \<Rightarrow> Inr (output_docx, output_pdf)),
                           events = ev3 @ evc,
                           rendered = written\<rparr>))))"

section \<open>Notions used to state the properties\<close>

subsection \<open>The language of a pattern\<close>


definition conc :: "string set \<Rightarrow> string set \<Rightarrow> string set" where
  "conc A B = {a @ b | a b. a \<in> A \<and> b \<in> B}"




subsection \<open>The two placeholder shapes\<close>

text \<open>
  The items the two patterns compile to: the opening braces, a filler, the key as a sequence
  of literals, a filler and two closing braces, where a filler is \<^verbatim>\<open>\s*(?:<\/?[^>]+>)*\s*\<close>.
\<close>

definition tag_item :: regex where
  "tag_item = Group [Lit (CHR ''<''), Opt (Lit (CHR ''/'')), Plus (CSet True ''>''), Lit (CHR ''>'')]"

definition filler_items :: "regex list" where
  "filler_items = [Star Space, Star tag_item, Star Space]"

definition double_items :: "string \<Rightarrow> regex list" where
  "double_items key =
     [Lit (CHR ''{''), Lit (CHR ''{'')] @ filler_items @ map Lit key @ filler_items @
     [Lit (CHR ''}''), Lit (CHR ''}'')]"

definition single_items :: "string \<Rightarrow> regex list" where
  "single_items key =
     [Lit (CHR ''{'')] @ filler_items @ map Lit key @ filler_items @
     [Lit (CHR ''}''), Lit (CHR ''}'')]"










subsection \<open>An example run\<close>

text \<open>
  A template of four files, all of them ASCII except one that holds two bytes that are not
  UTF-8. Reading as text is the identity on ASCII and fails on any other byte, which is what
  strict UTF-8 decoding does on these files.
\<close>

definition example_tree :: "(string list \<times> string) list" where
  "example_tree = [([''[Content_Types].xml''], ''<Types/>''),
                   ([''word'', ''document.xml''], ''<w:t>{{NAME}}</w:t>''),
                   ([''word'', ''styles.xml''], ''<w:styles/>''),
                   ([''word'', ''media'', ''image1.xml''], [CHR 0xFF, CHR 0xD8])]"

definition example_env :: "string env" where
  "example_env =
     \<lparr>docx_exists = True, remove_docx_ok = True, pdf_exists = False, remove_pdf_ok = True,
      mkdtemp_ok = True,
      extracted = Some example_tree,
      read_text = (\<lambda>b. if list_all (\<lambda>c. (of_char c :: nat) < 128) b then Some b else None),
      write_text = (\<lambda>s. s),
      zip_ok = True, rmtree_ok = True, tool_found = True,
      proc = \<lparr>returncode = 0, stdout = ''convert'', stderr = []\<rparr>,
      renderer_writes_pdf = True\<rparr>"

section \<open>Properties of the matcher\<close>

declare re_sub_from.simps [simp del]

lemma special_not_alnum: "c \<in> set special_chars \<Longrightarrow> c \<noteq> CHR ''s'' \<and> \<not> is_alnum c"
  by (auto simp: special_chars_def is_alnum_def bslash_def)

lemma plain_not_meta:
  "c \<notin> set special_chars \<Longrightarrow>
     c \<noteq> bslash \<and> c \<noteq> CHR ''['' \<and> c \<noteq> CHR ''('' \<and> c \<noteq> CHR '')'' \<and> c \<noteq> CHR ''*'' \<and>
     c \<noteq> CHR ''+'' \<and> c \<noteq> CHR ''?'' \<and> c \<noteq> CHR ''.'' \<and> c \<noteq> CHR ''^'' \<and> c \<noteq> CHR ''$'' \<and>
     c \<noteq> CHR ''|'' \<and> c \<noteq> CHR ''{''"
  by (auto simp: special_chars_def)

lemma parse_re_escape:
  "parse_re (re_escape key @ rest) acc stk = parse_re rest (rev (map Lit key) @ acc) stk"
proof (induction key arbitrary: acc)
  case Nil
  then show ?case by simp
next
  case (Cons c key)
  show ?case
  proof (cases "c \<in> set special_chars")
    case True
    then have "c \<noteq> CHR ''s''" "\<not> is_alnum c" using special_not_alnum by blast+
    then show ?thesis using True Cons.IH[of "Lit c # acc"] by simp
  next
    case False
    from plain_not_meta[OF False] show ?thesis using False Cons.IH[of "Lit c # acc"] by simp
  qed
qed

lemma bslash_neq [simp]:
  "bslash \<noteq> CHR ''['' " "bslash \<noteq> CHR ''('' " "bslash \<noteq> CHR '')''" "bslash \<noteq> CHR ''*''"
  "bslash \<noteq> CHR ''+''" "bslash \<noteq> CHR ''?''" "bslash \<noteq> CHR ''s''" "bslash \<noteq> CHR ''{''" "bslash \<noteq> CHR ''}''"
  by (simp_all add: bslash_def)

lemma compile_double:
  "re_compile (pattern_double key) =
     Some ([Lit (CHR ''{''), Lit (CHR ''{'')] @ filler_items @ map Lit key @ filler_items @
           [Lit (CHR ''}''), Lit (CHR ''}'')])"
  by (simp add: re_compile_def pattern_double_def tags_ws_def parse_re_escape bslash_def
        is_alnum_def filler_items_def tag_item_def)

lemma compile_single:
  "re_compile (pattern_single key) =
     Some ([Lit (CHR ''{'')] @ filler_items @ map Lit key @ filler_items @
           [Lit (CHR ''}''), Lit (CHR ''}'')])"
  by (simp add: re_compile_def pattern_single_def tags_ws_def parse_re_escape bslash_def
        is_alnum_def filler_items_def tag_item_def)



lemma of_char_lower_range:
  "lower_char x \<noteq> x \<Longrightarrow>
     (97 \<le> (of_char (lower_char x) :: nat) \<and> (of_char (lower_char x) :: nat) \<le> 122) \<or>
     (224 \<le> (of_char (lower_char x) :: nat) \<and> (of_char (lower_char x) :: nat) \<le> 254)"
  by (auto simp: lower_char_def Let_def split: if_splits)

lemma lower_char_fixed:
  assumes "\<not> (97 \<le> (of_char c :: nat) \<and> (of_char c :: nat) \<le> 122)"
    and "\<not> (224 \<le> (of_char c :: nat) \<and> (of_char c :: nat) \<le> 254)"
    and "lower_char c = c"
  shows "(lower_char x = c) = (x = c)"
proof
  assume e: "lower_char x = c"
  show "x = c"
  proof (rule ccontr)
    assume "x \<noteq> c"
    with e have "lower_char x \<noteq> x" by auto
    from of_char_lower_range[OF this] e assms show False by auto
  qed
next
  assume "x = c"
  with assms show "lower_char x = c" by simp
qed

lemma lower_char_punct_self [simp]:
  "lower_char (CHR ''{'') = CHR ''{''" "lower_char (CHR ''}'') = CHR ''}''"
  "lower_char (CHR ''<'') = CHR ''<''" "lower_char (CHR ''>'') = CHR ''>''"
  "lower_char (CHR ''/'') = CHR ''/''"
  by (simp_all add: lower_char_def)

lemma lower_char_punct [simp]:
  "(lower_char x = CHR ''{'') = (x = CHR ''{'')"
  "(lower_char x = CHR ''}'') = (x = CHR ''}'')"
  "(lower_char x = CHR ''<'') = (x = CHR ''<'')"
  "(lower_char x = CHR ''>'') = (x = CHR ''>'')"
  "(lower_char x = CHR ''/'') = (x = CHR ''/'')"
  by (rule lower_char_fixed; simp)+


lemma conc_unit [simp]: "conc A {[]} = A" "conc {[]} A = A"
  by (auto simp: conc_def)



lemma conc_char: "conc {[x] | x. x = c} A = {c # w | w. w \<in> A}"
  by (auto simp: conc_def)



lemma match_char_simps [simp]:
  "match_char (Lit (CHR ''{'')) x = (x = CHR ''{'')"
  "match_char (Lit (CHR ''}'')) x = (x = CHR ''}'')"
  "match_char (Lit (CHR ''<'')) x = (x = CHR ''<'')"
  "match_char (Lit (CHR ''>'')) x = (x = CHR ''>'')"
  "match_char (Lit (CHR ''/'')) x = (x = CHR ''/'')"
  "match_char (CSet True ''>'') x = (x \<noteq> CHR ''>'')"
  "match_char Space x = is_space x"
  by (simp_all add: match_char_def)














lemma compile_double_items: "re_compile (pattern_double key) = Some (double_items key)"
  by (simp add: compile_double double_items_def)

lemma compile_single_items: "re_compile (pattern_single key) = Some (single_items key)"
  by (simp add: compile_single single_items_def)



































lemma ends_seq_lits:
  "ends_seq (map Lit key @ rest) s =
     (if length key \<le> length s \<and> map lower_char (take (length key) s) = map lower_char key
      then ends_seq rest (drop (length key) s) else [])"
proof (induction key arbitrary: s)
  case Nil
  show ?case by simp
next
  case (Cons c key)
  show ?case
  proof (cases s)
    case Nil
    then show ?thesis by simp
  next
    case s: (Cons x xs)
    show ?thesis
    proof (cases "lower_char x = lower_char c")
      case True
      then have "ends_seq (map Lit (c # key) @ rest) s = ends_seq (map Lit key @ rest) xs"
        unfolding s by (simp add: match_char_def)
      also note Cons.IH[of xs]
      finally show ?thesis using True unfolding s by simp
    next
      case False
      then have "ends_seq (map Lit (c # key) @ rest) s = []"
        unfolding s by (simp add: match_char_def)
      then show ?thesis using False unfolding s by simp
    qed
  qed
qed

lemma substitute_append:
  "substitute (d1 @ d2) xml =
     (case substitute d1 xml of Inl e \<Rightarrow> Inl e | Inr xml' \<Rightarrow> substitute d2 xml')"
  by (induction d1 arbitrary: xml) (auto split: sum.splits)

section \<open>Properties of paths and of the pipeline\<close>

lemma rfind_from_append:
  "rfind_from x (p @ q) i f = rfind_from x q (i + int (length p)) (rfind_from x p i f)"
  by (induction p arbitrary: i f) (simp_all add: add.assoc)

lemma rfind_from_absent: "x \<notin> set p \<Longrightarrow> rfind_from x p i f = f"
  by (induction p arbitrary: i) auto

lemma rfind_from_bounds:
  "f < i \<Longrightarrow> rfind_from x p i f < i + int (length p)"
proof (induction p arbitrary: i f)
  case Nil
  then show ?case by simp
next
  case (Cons a p)
  then have "(if a = x then i else f) < i + 1" by simp
  from Cons.IH[OF this] show ?case by (simp add: add.assoc)
qed

lemma rfind_from_lower: "- 1 \<le> f \<Longrightarrow> 0 \<le> i \<Longrightarrow> - 1 \<le> rfind_from x p i f"
proof (induction p arbitrary: i f)
  case Nil
  then show ?case by simp
next
  case (Cons a p)
  then have "- 1 \<le> (if a = x then i else f)" "0 \<le> i + 1" by auto
  from Cons.IH[OF this] show ?case by simp
qed

lemma rfind_dot: "CHR ''.'' \<notin> set ext \<Longrightarrow> rfind (CHR ''.'') (stem @ ''.'' @ ext) = int (length stem)"
  by (simp add: rfind_def rfind_from_append rfind_from_absent)

lemma rfind_sep:
  "CHR ''/'' \<notin> set ext \<Longrightarrow> rfind (CHR ''/'') (stem @ ''.'' @ ext) = rfind (CHR ''/'') stem"
  by (simp add: rfind_def rfind_from_append rfind_from_absent)

lemma rfind_range: "- 1 \<le> rfind x p \<and> rfind x p < int (length p)"
  using rfind_from_bounds[of "- 1" 0 x p] rfind_from_lower[of "- 1" 0 x p] by (simp add: rfind_def)

lemma splitext_ext:
  assumes "CHR ''.'' \<notin> set ext" "CHR ''/'' \<notin> set ext"
    and "list_ex (\<lambda>c. c \<noteq> CHR ''.'') (drop (nat (rfind (CHR ''/'') stem + 1)) stem)"
  shows "splitext (stem @ ''.'' @ ext) = (stem, ''.'' @ ext)"
proof -
  let ?sep = "rfind (CHR ''/'') stem"
  have r: "- 1 \<le> ?sep" "?sep < int (length stem)" using rfind_range[of "CHR ''/''" stem] by auto
  then have n: "nat (?sep + 1) \<le> length stem" by simp
  have "take (nat (int (length stem) - (?sep + 1))) (drop (nat (?sep + 1)) (stem @ ''.'' @ ext))
        = drop (nat (?sep + 1)) stem"
    using n r by (simp add: nat_diff_distrib')
  with assms r show ?thesis
    by (simp add: splitext_def rfind_dot rfind_sep Let_def del: append.simps)
qed

lemma process_part_cases:
  "process_part env data part = (ev, res) \<Longrightarrow>
     (ev = [] \<and> res = Inr part) \<or>
     (\<exists>xml e. read_text env (snd part) = Some xml \<and> substitute data xml = Inl e \<and>
              ev = [] \<and> res = Inl e) \<or>
     (\<exists>xml new_xml. read_text env (snd part) = Some xml \<and> substitute data xml = Inr new_xml \<and>
              new_xml \<noteq> xml \<and> ev = [WritePart (fst part)] \<and>
              res = Inr (fst part, write_text env new_xml))"
  by (auto simp: process_part_def split: if_splits option.splits sum.splits)

lemma process_part_opaque:
  "read_text env (snd part) = None \<Longrightarrow> process_part env data part = ([], Inr part)"
  by (simp add: process_part_def)





lemma process_tree_env_cong:
  "read_text env' = read_text env \<Longrightarrow> write_text env' = write_text env \<Longrightarrow>
   process_tree env' data tree = process_tree env data tree"
proof -
  assume a: "read_text env' = read_text env" "write_text env' = write_text env"
  have "process_part env' data part = process_part env data part" for part
    by (simp add: process_part_def a split: option.splits sum.splits)
  then show ?thesis by (induction tree) simp_all
qed






lemma result_paths:
  "result (fill_docx_and_convert env input_docx output_docx data) = Inr r \<Longrightarrow>
     r = (output_docx, fst (splitext output_docx) @ ''.pdf'')"
  by (auto simp: fill_docx_and_convert_def Let_def split: if_splits prod.splits sum.splits)

lemma process_tree_no_rmtree: "Rmtree \<notin> set (fst (process_tree env data tree))"
proof (induction tree)
  case Nil
  show ?case by simp
next
  case (Cons part parts)
  obtain ev r where p: "process_part env data part = (ev, r)" by (cases "process_part env data part")
  from process_part_cases[OF p] have "Rmtree \<notin> set ev" by auto
  with Cons p show ?case by (auto split: sum.splits prod.splits)
qed

lemma count_list_absent: "x \<notin> set xs \<Longrightarrow> count_list xs x = 0"
  by (induction xs) auto

lemma fill_body_no_rmtree:
  "count_list (fst (fill_body env input_docx output_docx data)) Rmtree = 0"
proof -
  have "Rmtree \<notin> set (fst (fill_body env input_docx output_docx data))"
  proof (cases "extracted env")
    case None
    then show ?thesis by (simp add: fill_body_def)
  next
    case (Some tree)
    obtain evs res where t: "process_tree env data tree = (evs, res)"
      by (cases "process_tree env data tree")
    with process_tree_no_rmtree[of env data tree] have "Rmtree \<notin> set evs" by simp
    with Some t show ?thesis by (cases res) (simp_all add: fill_body_def)
  qed
  then show ?thesis by (rule count_list_absent)
qed

lemma rmtree_exactly_once:
  "count_list (events (fill_docx_and_convert env input_docx output_docx data)) Rmtree =
     (if mkdtemp_ok env then 1 else 0)"
proof -
  have r: "count_list (remove_if_exists a b c) Rmtree = 0" for a b c
    by (simp add: remove_if_exists_def)
  have c: "count_list (fst (convert env output_docx)) Rmtree = 0"
    by (simp add: convert_def Let_def)
  show ?thesis
    using fill_body_no_rmtree[of env input_docx output_docx data] c
    by (auto simp: fill_docx_and_convert_def Let_def r split: prod.splits sum.splits)
qed

section \<open>The claims\<close>



text \<open>
  C2. The keys are gone through in the order of the map, each on the text left by the keys
  before it: substituting with a map made of two parts is substituting with the first part
  and then, on the result, with the second. For one key the double-brace pattern is applied
  first and the single-brace pattern on its result. So a placeholder of a later key that
  stands in the value of an earlier key is replaced as well, and with the keys in the other
  order it is not.
\<close>

theorem substitution_is_sequential:
  "substitute (d1 @ d2) xml =
     (case substitute d1 xml of Inl e \<Rightarrow> Inl e | Inr xml' \<Rightarrow> substitute d2 xml') \<and>
   substitute [(key, v)] xml =
     (case re_sub (pattern_double key) v xml of
        Inl e \<Rightarrow> Inl e
      | Inr xml1 \<Rightarrow> re_sub (pattern_single key) v xml1) \<and>
   substitute [(''A'', ''{{B}}''), (''B'', ''x'')] ''{{A}}'' = Inr ''x'' \<and>
   substitute [(''B'', ''x''), (''A'', ''{{B}}'')] ''{{A}}'' = Inr ''{{B}}''"
proof -
  have 1: "substitute [(''A'', ''{{B}}''), (''B'', ''x'')] ''{{A}}'' = Inr ''x''" by code_simp
  have 2: "substitute [(''B'', ''x''), (''A'', ''{{B}}'')] ''{{A}}'' = Inr ''{{B}}''" by code_simp
  have 3: "substitute [(key, v)] xml =
     (case re_sub (pattern_double key) v xml of
        Inl e \<Rightarrow> Inl e
      | Inr xml1 \<Rightarrow> re_sub (pattern_single key) v xml1)"
    by (simp split: sum.splits)
  from 1 2 3 substitute_append show ?thesis by blast
qed

text \<open>
  C3. The scratch directory is removed by \<^verbatim>\<open>shutil.rmtree\<close> in the \<^verbatim>\<open>finally\<close> block, with
  nothing around the call. In the example run with a template that cannot be unpacked and a
  removal that fails, the error that reaches the caller is the one of the removal; with a
  removal that works it is the one of unpacking. A failing removal also turns the run that
  would succeed into a failure.
\<close>

theorem cleanup_failure_masks_error:
  "result (fill_docx_and_convert (example_env\<lparr>extracted := None, rmtree_ok := False\<rparr>)
            ''HFO.docx'' ''/tmp/out.docx'' [(''NAME'', ''MV TEST'')]) = Inl RmtreeError \<and>
   result (fill_docx_and_convert (example_env\<lparr>extracted := None\<rparr>)
            ''HFO.docx'' ''/tmp/out.docx'' [(''NAME'', ''MV TEST'')]) = Inl ExtractError \<and>
   result (fill_docx_and_convert (example_env\<lparr>rmtree_ok := False\<rparr>)
            ''HFO.docx'' ''/tmp/out.docx'' [(''NAME'', ''MV TEST'')]) = Inl RmtreeError"
proof -
  have 1: "result (fill_docx_and_convert (example_env\<lparr>extracted := None, rmtree_ok := False\<rparr>)
            ''HFO.docx'' ''/tmp/out.docx'' [(''NAME'', ''MV TEST'')]) = Inl RmtreeError"
    by (simp add: fill_docx_and_convert_def fill_body_def example_env_def Let_def)
  have 2: "result (fill_docx_and_convert (example_env\<lparr>extracted := None\<rparr>)
            ''HFO.docx'' ''/tmp/out.docx'' [(''NAME'', ''MV TEST'')]) = Inl ExtractError"
    by (simp add: fill_docx_and_convert_def fill_body_def example_env_def Let_def)
  have 3: "result (fill_docx_and_convert (example_env\<lparr>rmtree_ok := False\<rparr>)
            ''HFO.docx'' ''/tmp/out.docx'' [(''NAME'', ''MV TEST'')]) = Inl RmtreeError"
    by (simp add: fill_docx_and_convert_def example_env_def Let_def split: prod.splits)
  from 1 2 3 show ?thesis by blast
qed

text \<open>
  C4. A placeholder whose key text is interrupted by a tag fragment is left as it is: the
  patterns accept tag fragments between the braces and the key only. The same placeholder
  with the key in one piece is replaced.
\<close>

theorem split_key_not_substituted:
  "substitute [(''NAME'', ''MV TEST'')] ''{{<a>NA<b>ME<c>}}'' = Inr ''{{<a>NA<b>ME<c>}}'' \<and>
   substitute [(''NAME'', ''MV TEST'')] ''{{<a>NAME<c>}}'' = Inr ''MV TEST''"
proof -
  have 1: "substitute [(''NAME'', ''MV TEST'')] ''{{<a>NA<b>ME<c>}}'' = Inr ''{{<a>NA<b>ME<c>}}''"
    by code_simp
  have 2: "substitute [(''NAME'', ''MV TEST'')] ''{{<a>NAME<c>}}'' = Inr ''MV TEST''"
    by code_simp
  from 1 2 show ?thesis by blast
qed






text \<open>
  C7. The value is handed to \<^verbatim>\<open>re.sub\<close> as its replacement template, so a backslash in it is
  read as an escape: backslash and \<^verbatim>\<open>n\<close> become a newline, and backslash and \<^verbatim>\<open>D\<close> make
  \<^verbatim>\<open>re.sub\<close> raise. Parentheses and brackets are inserted as they are.
\<close>

theorem backslash_in_value_is_interpreted:
  "substitute [(''NAME'', ''A'' @ [bslash] @ ''nB'')] ''{{NAME}}'' = Inr (''A'' @ [CHR 0x0A] @ ''B'') \<and>
   substitute [(''LOCATION'', ''PORT'' @ [bslash] @ ''DOCK'')] ''{{LOCATION}}'' = Inl TemplateError \<and>
   substitute [(''NAME'', ''(A) [B]'')] ''{{NAME}}'' = Inr ''(A) [B]''"
proof -
  have 1: "substitute [(''NAME'', ''A'' @ [bslash] @ ''nB'')] ''{{NAME}}'' = Inr (''A'' @ [CHR 0x0A] @ ''B'')"
    by code_simp
  have 2: "substitute [(''LOCATION'', ''PORT'' @ [bslash] @ ''DOCK'')] ''{{LOCATION}}'' = Inl TemplateError"
    by code_simp
  have 3: "substitute [(''NAME'', ''(A) [B]'')] ''{{NAME}}'' = Inr ''(A) [B]''"
    by code_simp
  from 1 2 3 show ?thesis by blast
qed

text \<open>
  C8, as amended. Whether an old file at the destination can be removed does not change the
  result of the run: the failure is swallowed. When everything before it succeeds and the
  new archive cannot be written, the run fails with the error of the archive and no archive
  is there.
\<close>

theorem repack_failure:
  "result (fill_docx_and_convert (env\<lparr>remove_docx_ok := b\<rparr>) input_docx output_docx data) =
     result (fill_docx_and_convert env input_docx output_docx data) \<and>
   (mkdtemp_ok env \<and> rmtree_ok env \<and> extracted env = Some tree \<and>
    snd (process_tree env data tree) = Inr out \<and> \<not> zip_ok env \<longrightarrow>
      result (fill_docx_and_convert env input_docx output_docx data) = Inl ZipWriteError \<and>
      rendered (fill_docx_and_convert env input_docx output_docx data) = None)"
proof -
  have t: "process_tree (env\<lparr>remove_docx_ok := b\<rparr>) data tr = process_tree env data tr" for tr
    by (rule process_tree_env_cong) simp_all
  have 1: "result (fill_docx_and_convert (env\<lparr>remove_docx_ok := b\<rparr>) input_docx output_docx data) =
     result (fill_docx_and_convert env input_docx output_docx data)"
    by (simp add: fill_docx_and_convert_def fill_body_def convert_def pdf_after_def t Let_def
        split: option.splits prod.splits sum.splits)
  have 2: "result (fill_docx_and_convert env input_docx output_docx data) = Inl ZipWriteError \<and>
      rendered (fill_docx_and_convert env input_docx output_docx data) = None"
    if "mkdtemp_ok env" "rmtree_ok env" "extracted env = Some tree"
      "snd (process_tree env data tree) = Inr out" "\<not> zip_ok env"
    using that
    by (cases "process_tree env data tree")
       (simp add: fill_docx_and_convert_def fill_body_def Let_def)
  from 1 2 show ?thesis by blast
qed

text \<open>
  The example run with an archive that cannot be written.
\<close>

theorem repack_failure_witness:
  "mkdtemp_ok (example_env\<lparr>zip_ok := False\<rparr>) \<and> rmtree_ok (example_env\<lparr>zip_ok := False\<rparr>) \<and>
   \<not> zip_ok (example_env\<lparr>zip_ok := False\<rparr>) \<and>
   result (fill_docx_and_convert (example_env\<lparr>zip_ok := False\<rparr>)
             ''HFO.docx'' ''/tmp/out.docx'' [(''NAME'', ''MV TEST'')]) = Inl ZipWriteError"
proof -
  let ?env = "example_env\<lparr>zip_ok := False\<rparr>"
  let ?tree = "example_tree"
  let ?out = "[([''[Content_Types].xml''], ''<Types/>''),
                ([''word'', ''document.xml''], ''<w:t>MV TEST</w:t>''),
                ([''word'', ''styles.xml''], ''<w:styles/>''),
                ([''word'', ''media'', ''image1.xml''], [CHR 0xFF, CHR 0xD8])]"
  have h: "mkdtemp_ok ?env" "rmtree_ok ?env" "extracted ?env = Some ?tree" "\<not> zip_ok ?env"
    by (simp_all add: example_env_def)
  have p: "snd (process_tree ?env [(''NAME'', ''MV TEST'')] ?tree) = Inr ?out"
    by code_simp
  from repack_failure[where env = ?env and b = True and input_docx = "''HFO.docx''"
      and output_docx = "''/tmp/out.docx''" and data = "[(''NAME'', ''MV TEST'')]"
      and tree = ?tree and out = ?out]
    h p
  show ?thesis by blast
qed

text \<open>
  C8 as stated fails: in the example run with an old file that cannot be removed, the run
  succeeds.
\<close>

theorem failed_removal_is_ignored:
  "docx_exists (example_env\<lparr>remove_docx_ok := False\<rparr>) \<and>
   \<not> remove_docx_ok (example_env\<lparr>remove_docx_ok := False\<rparr>) \<and>
   result (fill_docx_and_convert (example_env\<lparr>remove_docx_ok := False\<rparr>)
            ''HFO.docx'' ''/tmp/out.docx'' [(''NAME'', ''MV TEST'')]) =
     Inr (''/tmp/out.docx'', ''/tmp/out.pdf'')"
proof -
  have "result (fill_docx_and_convert (example_env\<lparr>remove_docx_ok := False\<rparr>)
            ''HFO.docx'' ''/tmp/out.docx'' [(''NAME'', ''MV TEST'')]) =
     Inr (''/tmp/out.docx'', ''/tmp/out.pdf'')"
    by code_simp
  then show ?thesis by (simp add: example_env_def)
qed

text \<open>
  C9. A run that succeeds returns the destination path and the path of the PDF, which is the
  destination path without its extension followed by \<^verbatim>\<open>.pdf\<close>. For a destination that ends
  in a dot and an extension, after a file name that is not made of dots only, this is the
  same path with \<^verbatim>\<open>pdf\<close> as extension.
\<close>

theorem output_paths:
  "(result (fill_docx_and_convert env input_docx output_docx data) = Inr r \<longrightarrow>
      r = (output_docx, fst (splitext output_docx) @ ''.pdf'')) \<and>
   (CHR ''.'' \<notin> set ext \<and> CHR ''/'' \<notin> set ext \<and>
    list_ex (\<lambda>c. c \<noteq> CHR ''.'') (drop (nat (rfind (CHR ''/'') stem + 1)) stem) \<longrightarrow>
      fst (splitext (stem @ ''.'' @ ext)) @ ''.pdf'' = stem @ ''.pdf'')"
proof (intro conjI impI)
  assume "result (fill_docx_and_convert env input_docx output_docx data) = Inr r"
  then show "r = (output_docx, fst (splitext output_docx) @ ''.pdf'')" by (rule result_paths)
next
  assume "CHR ''.'' \<notin> set ext \<and> CHR ''/'' \<notin> set ext \<and>
    list_ex (\<lambda>c. c \<noteq> CHR ''.'') (drop (nat (rfind (CHR ''/'') stem + 1)) stem)"
  then have "splitext (stem @ ''.'' @ ext) = (stem, ''.'' @ ext)"
    using splitext_ext[of ext stem] by blast
  then show "fst (splitext (stem @ ''.'' @ ext)) @ ''.pdf'' = stem @ ''.pdf''" by simp
qed

text \<open>
  The example run with the destination \<^verbatim>\<open>/tmp/out.docx\<close>.
\<close>

theorem output_paths_witness:
  "result (fill_docx_and_convert example_env ''HFO.docx'' ''/tmp/out.docx'' [(''NAME'', ''MV TEST'')]) =
     Inr (''/tmp/out.docx'', ''/tmp/out.pdf'') \<and>
   CHR ''.'' \<notin> set ''docx'' \<and> CHR ''/'' \<notin> set ''docx'' \<and>
   list_ex (\<lambda>c. c \<noteq> CHR ''.'') (drop (nat (rfind (CHR ''/'') ''/tmp/out'' + 1)) ''/tmp/out'') \<and>
   fst (splitext ''/tmp/out.docx'') @ ''.pdf'' = ''/tmp/out.pdf''"
proof -
  have r: "result (fill_docx_and_convert example_env ''HFO.docx'' ''/tmp/out.docx''
             [(''NAME'', ''MV TEST'')]) = Inr (''/tmp/out.docx'', ''/tmp/out.pdf'')"
    by code_simp
  have 1: "CHR ''.'' \<notin> set ''docx''" "CHR ''/'' \<notin> set ''docx''" by simp_all
  have 2: "list_ex (\<lambda>c. c \<noteq> CHR ''.'') (drop (nat (rfind (CHR ''/'') ''/tmp/out'' + 1)) ''/tmp/out'')"
    by code_simp
  from output_paths[where stem = "''/tmp/out''" and ext = "''docx''"] 1 2
  have 3: "fst (splitext (''/tmp/out'' @ ''.'' @ ''docx'')) @ ''.pdf'' = ''/tmp/out'' @ ''.pdf''"
    by blast
  then have 4: "fst (splitext ''/tmp/out.docx'') @ ''.pdf'' = ''/tmp/out.pdf''" by simp
  from r 1 2 4 show ?thesis by simp
qed

text \<open>
  C10. The key is escaped before the patterns are built, so in both compiled patterns it is
  a sequence of literal characters, one for each character of the key, whatever the
  characters are; and a sequence of literals matches exactly the texts equal to the key up to
  letter case.
\<close>

theorem key_is_matched_literally:
  "re_compile (pattern_double key) = Some (double_items key) \<and>
   re_compile (pattern_single key) = Some (single_items key) \<and>
   ends_seq (map Lit key @ rest) s =
     (if length key \<le> length s \<and> map lower_char (take (length key) s) = map lower_char key
      then ends_seq rest (drop (length key) s) else [])"
  using compile_double_items compile_single_items ends_seq_lits by blast

text \<open>
  The key \<^verbatim>\<open>a+\<close> matches \<^verbatim>\<open>A+\<close> and does not match \<^verbatim>\<open>aa\<close>.
\<close>

theorem key_is_matched_literally_witness:
  "re_compile (pattern_double ''a+'') =
     Some ([Lit (CHR ''{''), Lit (CHR ''{'')] @ filler_items @ [Lit (CHR ''a''), Lit (CHR ''+'')] @
           filler_items @ [Lit (CHR ''}''), Lit (CHR ''}'')]) \<and>
   ends_seq (map Lit ''a+'' @ []) ''A+b'' = [''b''] \<and>
   ends_seq (map Lit ''a+'' @ []) ''aab'' = []"
proof -
  have 1: "map lower_char (take (length ''a+'') ''A+b'') = map lower_char ''a+''" by code_simp
  have 2: "map lower_char (take (length ''a+'') ''aab'') \<noteq> map lower_char ''a+''" by code_simp
  have 3: "double_items ''a+'' =
     [Lit (CHR ''{''), Lit (CHR ''{'')] @ filler_items @ [Lit (CHR ''a''), Lit (CHR ''+'')] @
           filler_items @ [Lit (CHR ''}''), Lit (CHR ''}'')]"
    by (simp add: double_items_def)
  from key_is_matched_literally[of "''a+''" "[]" "''A+b''"] 1
  have a: "re_compile (pattern_double ''a+'') = Some (double_items ''a+'')"
    and b: "ends_seq (map Lit ''a+'' @ []) ''A+b'' = [''b'']"
    by simp_all
  from key_is_matched_literally[of "''a+''" "[]" "''aab''"] 2
  have c: "ends_seq (map Lit ''a+'' @ []) ''aab'' = []" by simp
  from a b c 3 show ?thesis by simp
qed

end
